theory Spec2Isabelle
  imports Complex_Main "HOL-Library.Multiset"
begin

section \<open>JavaScript values used by the player\<close>

text \<open>
  Times, volumes, rates and track ids are JavaScript numbers. Only comparisons,
  \<open>Math.max\<close> and \<open>Math.min\<close> are applied to them, which are exact on finite
  numbers, so they are modelled as \<open>real\<close> (finite, not NaN). Indices and lengths are
  integral numbers and are modelled as \<open>int\<close>.
\<close>

text \<open>
  The \<open>%\<close> operator of JavaScript on integral operands: the result takes the sign of
  the dividend. The divisor is never 0 where the sources use it (each use is guarded by a
  test for an empty playlist).
\<close>

definition js_rem :: "int \<Rightarrow> int \<Rightarrow> int" where
  "js_rem a b = (if a < 0 then - ((- a) mod \<bar>b\<bar>) else a mod \<bar>b\<bar>)"

text \<open>\<open>Array.prototype.findIndex\<close>: the first position whose element satisfies the
  predicate, \<open>-1\<close> when there is none.\<close>

fun findIndex :: "('a \<Rightarrow> bool) \<Rightarrow> 'a list \<Rightarrow> int" where
  "findIndex P [] = -1"
| "findIndex P (x # xs) =
     (if P x then 0 else (let r = findIndex P xs in if r = -1 then -1 else r + 1))"

text \<open>\<open>Array.prototype.indexOf\<close>.\<close>

definition indexOf :: "'a list \<Rightarrow> 'a \<Rightarrow> int" where
  "indexOf xs v = findIndex (\<lambda>x. x = v) xs"

text \<open>Reading \<open>xs[i]\<close>: \<open>None\<close> stands for \<open>undefined\<close>, the value of a read outside
  the array.\<close>

definition array_at :: "'a list \<Rightarrow> int \<Rightarrow> 'a option" where
  "array_at xs i = (if 0 \<le> i \<and> i < int (length xs) then Some (xs ! nat i) else None)"

section \<open>Navigation utilities (src/index.js)\<close>

text \<open>
  \<open>shuffleArray\<close>: the loop \<open>for (let i = shuffled.length - 1; i > 0; i--)\<close> with
  \<open>j = Math.floor(Math.random() * (i + 1))\<close> and the swap of positions \<open>i\<close> and \<open>j\<close>.
  The calls of \<open>Math.random()\<close> are the function \<open>random\<close>: \<open>random k\<close> is the value
  returned by call number \<open>k\<close>. The destructuring assignment reads both elements first,
  then writes position \<open>i\<close> and then position \<open>j\<close>. For the empty array the source
  starts at \<open>i = -1\<close> and the model at \<open>0\<close>; the body runs in neither.
\<close>

fun shuffle_loop :: "(nat \<Rightarrow> real) \<Rightarrow> nat \<Rightarrow> nat \<Rightarrow> 'a list \<Rightarrow> 'a list" where
  "shuffle_loop random k 0 shuffled = shuffled"
| "shuffle_loop random k (Suc i') shuffled =
     (let i = Suc i';
          j = nat \<lfloor>random k * real (i + 1)\<rfloor>
      in shuffle_loop random (Suc k) i' (shuffled[i := shuffled ! j, j := shuffled ! i]))"

definition shuffleArray :: "(nat \<Rightarrow> real) \<Rightarrow> 'a list \<Rightarrow> 'a list" where
  "shuffleArray random array = shuffle_loop random 0 (length array - 1) array"

definition getNextTrackIndex :: "int \<Rightarrow> int \<Rightarrow> bool \<Rightarrow> int list \<Rightarrow> int option" where
  "getNextTrackIndex currentIndex totalTracks shuffle shuffledIndices =
     (if totalTracks = 0 then Some (- 1)
      else if shuffle \<and> length shuffledIndices > 0 then
        (let currentShuffleIndex = indexOf shuffledIndices currentIndex;
             nextShuffleIndex =
               js_rem (currentShuffleIndex + 1) (int (length shuffledIndices))
         in array_at shuffledIndices nextShuffleIndex)
      else Some (js_rem (currentIndex + 1) totalTracks))"

definition getPreviousTrackIndex :: "int \<Rightarrow> int \<Rightarrow> bool \<Rightarrow> int list \<Rightarrow> int option" where
  "getPreviousTrackIndex currentIndex totalTracks shuffle shuffledIndices =
     (if totalTracks = 0 then Some (- 1)
      else if shuffle \<and> length shuffledIndices > 0 then
        (let currentShuffleIndex = indexOf shuffledIndices currentIndex;
             prevShuffleIndex =
               (if currentShuffleIndex = 0 then int (length shuffledIndices) - 1
                else currentShuffleIndex - 1)
         in array_at shuffledIndices prevShuffleIndex)
      else Some (if currentIndex = 0 then totalTracks - 1 else currentIndex - 1))"

section \<open>The player hook (src/hooks/useAudioPlayer.js)\<close>

text \<open>A track descriptor as the application builds it; the hook reads \<open>id\<close> and
  \<open>url\<close> only.\<close>

record track =
  t_id :: real
  t_name :: string
  t_url :: string
  t_size :: nat
  t_type :: string
  t_duration :: real

text \<open>The properties of the audio element that the hook assigns.\<close>

record audio =
  a_src :: string
  a_preload :: string
  a_paused :: bool
  a_currentTime :: real
  a_volume :: real
  a_muted :: bool
  a_playbackRate :: real

text \<open>The hook's state: \<open>audioRef.current\<close> (\<open>None\<close> is \<open>null\<close>) and one field for
  each \<open>useState\<close>. A state setter becomes a field update; an action or handler takes
  the state and returns the new one, its closure variables being the fields of the state
  it is applied to.\<close>

record player =
  audioRef :: "audio option"
  isPlaying :: bool
  isLoading :: bool
  duration :: real
  currentTime :: real
  volume :: real
  isMuted :: bool
  playbackRate :: real
  currentTrack :: "track option"
  playlist :: "track list"
  currentTrackIndex :: int
  error :: "string option"
  isBuffering :: bool

definition initial :: player where
  "initial = \<lparr> audioRef = None, isPlaying = False, isLoading = False, duration = 0,
       currentTime = 0, volume = 1, isMuted = False, playbackRate = 1,
       currentTrack = None, playlist = [], currentTrackIndex = 0, error = None,
       isBuffering = False \<rparr>"

text \<open>\<open>new Audio()\<close> followed by \<open>preload = 'metadata'\<close>.\<close>

definition new_audio :: audio where
  "new_audio = \<lparr> a_src = [], a_preload = ''metadata'', a_paused = True,
       a_currentTime = 0, a_volume = 1, a_muted = False, a_playbackRate = 1 \<rparr>"

text \<open>The first lines of the effect: the element is created once.\<close>

definition mount :: "player \<Rightarrow> player" where
  "mount s = (if audioRef s = None then s\<lparr>audioRef := Some new_audio\<rparr> else s)"

text \<open>The element's own methods, as far as the assigned properties go: \<open>pause()\<close>
  sets \<open>paused\<close>; \<open>load()\<close> restarts the element on its new source, paused at
  position 0.\<close>

definition audio_pause :: "audio \<Rightarrow> audio" where
  "audio_pause a = a\<lparr>a_paused := True\<rparr>"

definition audio_load :: "audio \<Rightarrow> audio" where
  "audio_load a = a\<lparr>a_paused := True, a_currentTime := 0\<rparr>"

subsection \<open>Event handlers\<close>

text \<open>The handlers are registered on the element, so they run only once it exists.
  A value that a handler reads from the element and that the browser, not the hook, has
  set (\<open>audio.duration\<close>, the \<open>audio.currentTime\<close> of a running playback) is an
  argument of the handler.\<close>

definition handleLoadStart :: "player \<Rightarrow> player" where
  "handleLoadStart s = s\<lparr>isLoading := True, isBuffering := True, error := None\<rparr>"

definition handleLoadedMetadata :: "real \<Rightarrow> player \<Rightarrow> player" where
  "handleLoadedMetadata audio_duration s =
     s\<lparr>duration := audio_duration, isLoading := False\<rparr>"

definition handleCanPlay :: "player \<Rightarrow> player" where
  "handleCanPlay s = s\<lparr>isBuffering := False\<rparr>"

definition handleTimeUpdate :: "real \<Rightarrow> player \<Rightarrow> player" where
  "handleTimeUpdate audio_currentTime s =
     s\<lparr>audioRef := map_option (\<lambda>a. a\<lparr>a_currentTime := audio_currentTime\<rparr>) (audioRef s),
       currentTime := audio_currentTime\<rparr>"

definition handleError :: "player \<Rightarrow> player" where
  "handleError s =
     s\<lparr>isPlaying := False, isLoading := False, isBuffering := False,
       error := Some ''Failed to load audio file''\<rparr>"

definition handleWaiting :: "player \<Rightarrow> player" where
  "handleWaiting s = s\<lparr>isBuffering := True\<rparr>"

definition handleCanPlayThrough :: "player \<Rightarrow> player" where
  "handleCanPlayThrough s = s\<lparr>isBuffering := False\<rparr>"

definition handleVolumeChange :: "player \<Rightarrow> player" where
  "handleVolumeChange s =
     (case audioRef s of
        None \<Rightarrow> s
      | Some a \<Rightarrow> s\<lparr>volume := a_volume a, isMuted := a_muted a\<rparr>)"

subsection \<open>Actions\<close>

text \<open>\<open>loadTrack(track)\<close>; \<open>None\<close> is a missing (falsy) track.\<close>

definition loadTrack :: "track option \<Rightarrow> player \<Rightarrow> player" where
  "loadTrack trk s =
     (case (audioRef s, trk) of
        (Some a, Some t) \<Rightarrow>
          s\<lparr>audioRef := Some (audio_load ((audio_pause a)\<lparr>a_src := t_url t\<rparr>)),
            isPlaying := False, currentTime := 0, error := None,
            currentTrack := Some t\<rparr>
      | _ \<Rightarrow> s)"

text \<open>\<open>play()\<close> awaits the promise of the element's \<open>play()\<close>; \<open>resolves\<close> tells
  whether it is fulfilled or rejected. The await is modelled as one step.\<close>

definition play :: "bool \<Rightarrow> player \<Rightarrow> player" where
  "play resolves s =
     (case (audioRef s, currentTrack s) of
        (Some a, Some t) \<Rightarrow>
          (if resolves
           then s\<lparr>audioRef := Some (a\<lparr>a_paused := False\<rparr>), error := None,
                  isPlaying := True\<rparr>
           else s\<lparr>error := Some ''Failed to play audio'', isPlaying := False\<rparr>)
      | _ \<Rightarrow> s)"

definition pause :: "player \<Rightarrow> player" where
  "pause s =
     (case audioRef s of
        None \<Rightarrow> s
      | Some a \<Rightarrow> s\<lparr>audioRef := Some (audio_pause a), isPlaying := False\<rparr>)"

definition togglePlayPause :: "bool \<Rightarrow> player \<Rightarrow> player" where
  "togglePlayPause resolves s = (if isPlaying s then pause s else play resolves s)"

definition stop :: "player \<Rightarrow> player" where
  "stop s =
     (case audioRef s of
        None \<Rightarrow> s
      | Some a \<Rightarrow>
          s\<lparr>audioRef := Some ((audio_pause a)\<lparr>a_currentTime := 0\<rparr>),
            isPlaying := False, currentTime := 0\<rparr>)"

definition seek :: "real \<Rightarrow> player \<Rightarrow> player" where
  "seek time s =
     (case audioRef s of
        None \<Rightarrow> s
      | Some a \<Rightarrow>
          (let clampedTime = max 0 (min time (duration s))
           in s\<lparr>audioRef := Some (a\<lparr>a_currentTime := clampedTime\<rparr>),
                currentTime := clampedTime\<rparr>))"

definition changeVolume :: "real \<Rightarrow> player \<Rightarrow> player" where
  "changeVolume newVolume s =
     (case audioRef s of
        None \<Rightarrow> s
      | Some a \<Rightarrow>
          (let clampedVolume = max 0 (min 1 newVolume);
               s1 = s\<lparr>audioRef := Some (a\<lparr>a_volume := clampedVolume\<rparr>),
                      volume := clampedVolume\<rparr>
           in if clampedVolume > 0 \<and> isMuted s
              then s1\<lparr>audioRef := Some (a\<lparr>a_volume := clampedVolume, a_muted := False\<rparr>),
                      isMuted := False\<rparr>
              else s1))"

definition toggleMute :: "player \<Rightarrow> player" where
  "toggleMute s =
     (case audioRef s of
        None \<Rightarrow> s
      | Some a \<Rightarrow>
          s\<lparr>audioRef := Some (a\<lparr>a_muted := \<not> a_muted a\<rparr>), isMuted := \<not> isMuted s\<rparr>)"

definition changePlaybackRate :: "real \<Rightarrow> player \<Rightarrow> player" where
  "changePlaybackRate rate s =
     (case audioRef s of
        None \<Rightarrow> s
      | Some a \<Rightarrow>
          (let clampedRate = max (1/4) (min 4 rate)
           in s\<lparr>audioRef := Some (a\<lparr>a_playbackRate := clampedRate\<rparr>),
                playbackRate := clampedRate\<rparr>))"

text \<open>\<open>addToPlaylist(track)\<close>: the appended copy gets the id
  \<open>Date.now() + Math.random()\<close>; the two readings are the arguments \<open>now\<close> and
  \<open>rnd\<close>.\<close>

definition addToPlaylist :: "track \<Rightarrow> real \<Rightarrow> real \<Rightarrow> player \<Rightarrow> player" where
  "addToPlaylist t now rnd s = s\<lparr>playlist := playlist s @ [t\<lparr>t_id := now + rnd\<rparr>]\<rparr>"

definition removeFromPlaylist :: "real \<Rightarrow> player \<Rightarrow> player" where
  "removeFromPlaylist trackId s =
     (let prev = playlist s;
          newPlaylist = filter (\<lambda>t. t_id t \<noteq> trackId) prev;
          removedIndex = findIndex (\<lambda>t. t_id t = trackId) prev;
          s1 = (if removedIndex \<noteq> - 1 \<and> removedIndex \<le> currentTrackIndex s
                then s\<lparr>currentTrackIndex := max 0 (currentTrackIndex s - 1)\<rparr>
                else s)
      in s1\<lparr>playlist := newPlaylist\<rparr>)"

definition clearPlaylist :: "player \<Rightarrow> player" where
  "clearPlaylist s =
     (stop (s\<lparr>playlist := [], currentTrackIndex := 0\<rparr>))\<lparr>currentTrack := None\<rparr>"

definition playTrack :: "int \<Rightarrow> player \<Rightarrow> player" where
  "playTrack trackIndex s =
     (if trackIndex < 0 \<or> trackIndex \<ge> int (length (playlist s)) then s
      else loadTrack (array_at (playlist s) trackIndex)
             (s\<lparr>currentTrackIndex := trackIndex\<rparr>))"

definition playNext :: "player \<Rightarrow> player" where
  "playNext s =
     (if length (playlist s) = 0 then s
      else playTrack (js_rem (currentTrackIndex s + 1) (int (length (playlist s)))) s)"

definition playPrevious :: "player \<Rightarrow> player" where
  "playPrevious s =
     (if length (playlist s) = 0 then s
      else playTrack (if currentTrackIndex s = 0 then int (length (playlist s)) - 1
                      else currentTrackIndex s - 1) s)"

definition skipForward :: "real \<Rightarrow> player \<Rightarrow> player" where
  "skipForward seconds s = seek (currentTime s + seconds) s"

definition skipBackward :: "real \<Rightarrow> player \<Rightarrow> player" where
  "skipBackward seconds s = seek (currentTime s - seconds) s"

text \<open>The \<open>ended\<close> handler; it is defined after the actions because it calls
  \<open>playNext\<close>.\<close>

definition handleEnded :: "player \<Rightarrow> player" where
  "handleEnded s =
     (let s1 = s\<lparr>isPlaying := False, currentTime := 0\<rparr>
      in if length (playlist s) > 0 \<and> currentTrackIndex s < int (length (playlist s)) - 1
         then playNext s1 else s1)"

section \<open>The playlist store as the specification words it\<close>

text \<open>
  The specification's \<open>add(track)\<close>, stated from its words for comparison with
  \<open>addToPlaylist\<close>: the track is appended at the end, and the call fails with
  \<open>DuplicateIdError\<close> if a track with the same id is already present.
\<close>

datatype store_error = DuplicateIdError

definition add_spec :: "track list \<Rightarrow> track \<Rightarrow> store_error + track list" where
  "add_spec tracks t =
     (if t_id t \<in> t_id ` set tracks then Inl DuplicateIdError else Inr (tracks @ [t]))"

section \<open>Example sessions\<close>

definition trackA :: track where
  "trackA = \<lparr> t_id = 1, t_name = ''A'', t_url = ''blob:A'', t_size = 1000,
       t_type = ''audio/mpeg'', t_duration = 0 \<rparr>"

definition trackB :: track where
  "trackB = \<lparr> t_id = 2, t_name = ''B'', t_url = ''blob:B'', t_size = 2000,
       t_type = ''audio/mpeg'', t_duration = 0 \<rparr>"

text \<open>The mounted hook after both tracks were added, at times 10 and 20 with random
  parts \<open>1/2\<close> and \<open>1/4\<close>: the playlist holds copies with the ids \<open>21/2\<close> and
  \<open>81/4\<close>.\<close>

definition two_tracks :: player where
  "two_tracks = addToPlaylist trackB 20 (1/4) (addToPlaylist trackA 10 (1/2) (mount initial))"

text \<open>The first, respectively the last, of the two tracks selected and playing.\<close>

definition playing_first :: player where
  "playing_first = play True (handleLoadedMetadata 100 (handleLoadStart (playTrack 0 two_tracks)))"

definition playing_last :: player where
  "playing_last = play True (handleLoadedMetadata 200 (handleLoadStart (playTrack 1 two_tracks)))"

text \<open>A track was loaded, its metadata arrived, and the playlist was cleared: no track
  is loaded any more.\<close>

definition cleared :: player where
  "cleared = clearPlaylist (handleLoadedMetadata 100 (handleLoadStart (playTrack 0 two_tracks)))"

section \<open>Auxiliary facts\<close>

lemmas session_defs = two_tracks_def trackA_def trackB_def initial_def mount_def new_audio_def

lemmas action_defs = addToPlaylist_def playTrack_def loadTrack_def play_def
  handleLoadStart_def handleLoadedMetadata_def handleEnded_def playNext_def
  clearPlaylist_def stop_def seek_def removeFromPlaylist_def array_at_def
  audio_pause_def audio_load_def js_rem_def

lemma js_rem_nonneg: "0 \<le> a \<Longrightarrow> 0 < b \<Longrightarrow> js_rem a b = a mod b"
  by (simp add: js_rem_def)

lemma findIndex_lower: "- 1 \<le> findIndex P xs"
  by (induction xs) (auto simp add: Let_def)

lemma findIndex_absent: "findIndex P xs = - 1 \<longleftrightarrow> (\<forall>x \<in> set xs. \<not> P x)"
proof (induction xs)
  case Nil
  then show ?case by simp
next
  case (Cons x xs)
  have "findIndex P xs + 1 \<noteq> - 1"
    using findIndex_lower [of P xs] by linarith
  with Cons show ?case by (auto simp add: Let_def)
qed

lemma findIndex_first:
  "findIndex P xs \<noteq> - 1 \<Longrightarrow>
     0 \<le> findIndex P xs \<and> findIndex P xs < int (length xs) \<and>
     P (xs ! nat (findIndex P xs)) \<and> (\<forall>i < nat (findIndex P xs). \<not> P (xs ! i))"
proof (induction xs)
  case Nil
  then show ?case by simp
next
  case (Cons x xs)
  show ?case
  proof (cases "P x")
    case True
    then show ?thesis by simp
  next
    case False
    with Cons.prems have ne: "findIndex P xs \<noteq> - 1"
      by (auto simp add: Let_def split: if_splits)
    with False have eq: "findIndex P (x # xs) = findIndex P xs + 1"
      by (simp add: Let_def)
    from Cons.IH [OF ne] have ih: "0 \<le> findIndex P xs" "findIndex P xs < int (length xs)"
      "P (xs ! nat (findIndex P xs))" "\<forall>i < nat (findIndex P xs). \<not> P (xs ! i)"
      by auto
    have n: "nat (findIndex P xs + 1) = Suc (nat (findIndex P xs))"
      using ih(1) by simp
    have "\<not> P ((x # xs) ! i)" if "i < Suc (nat (findIndex P xs))" for i
      using that False ih(4) by (cases i) auto
    then show ?thesis unfolding eq n using ih by simp
  qed
qed

text \<open>Every draw \<open>j\<close> of the loop lies in \<open>[0, i]\<close>, so each step swaps two positions
  of the array and keeps its elements.\<close>

lemma shuffle_loop_mset:
  "\<forall>k. 0 \<le> random k \<and> random k < 1 \<Longrightarrow> i < length xs \<or> i = 0 \<Longrightarrow>
   mset (shuffle_loop random k i xs) = mset xs"
proof (induction i arbitrary: k xs)
  case 0
  then show ?case by simp
next
  case (Suc i)
  let ?j = "nat \<lfloor>random k * real (Suc i + 1)\<rfloor>"
  let ?ys = "xs[Suc i := xs ! ?j, ?j := xs ! Suc i]"
  from Suc.prems have len: "Suc i < length xs" by auto
  have r: "0 \<le> random k" "random k < 1" using Suc.prems(1) by auto
  have "random k * real (Suc i + 1) < real (Suc i + 1)" using r by simp
  then have "\<lfloor>random k * real (Suc i + 1)\<rfloor> < int (Suc i + 1)" by linarith
  then have "?j \<le> Suc i" by linarith
  then have jl: "?j < length xs" using len by simp
  have "mset ?ys = mset xs"
    using mset_swap [OF jl len] .
  moreover have "i < length ?ys" using len by simp
  ultimately show ?case
    using Suc.IH [of ?ys "Suc k"] Suc.prems(1) by (simp add: Let_def)
qed

section \<open>Navigation policy\<close>

text \<open>
  C5. In linear mode (\<open>shuffle = false\<close>) \<open>getNextTrackIndex\<close> returns \<open>-1\<close> for
  length 0; for a positive length and a current index that is \<open>-1\<close> (no selection)
  or larger it returns \<open>(current + 1) mod length\<close>, which is 0 after the last track.
  The index that \<open>playNext\<close> of the hook selects is the same one.
\<close>

theorem nextIndex_linear:
  "getNextTrackIndex c 0 False sh = Some (- 1) \<and>
   (0 < n \<longrightarrow> - 1 \<le> c \<longrightarrow>
      getNextTrackIndex c n False sh = Some ((c + 1) mod n) \<and>
      getNextTrackIndex (n - 1) n False sh = Some 0) \<and>
   (playlist s \<noteq> [] \<longrightarrow> - 1 \<le> currentTrackIndex s \<longrightarrow>
      Some (currentTrackIndex (playNext s)) =
        getNextTrackIndex (currentTrackIndex s) (int (length (playlist s))) False sh)"
proof -
  have "Some (currentTrackIndex (playNext s)) =
        getNextTrackIndex (currentTrackIndex s) (int (length (playlist s))) False sh"
    if "playlist s \<noteq> []" "- 1 \<le> currentTrackIndex s"
  proof -
    let ?n = "int (length (playlist s))"
    let ?i = "js_rem (currentTrackIndex s + 1) ?n"
    have n: "0 < ?n" using that by simp
    have i: "?i = (currentTrackIndex s + 1) mod ?n"
      using that n by (simp add: js_rem_nonneg)
    have "0 \<le> ?i" "?i < ?n" using n unfolding i by simp_all
    then have "currentTrackIndex (playTrack ?i s) = ?i"
      by (simp add: playTrack_def loadTrack_def array_at_def split: option.splits)
    then show ?thesis using that n by (simp add: playNext_def getNextTrackIndex_def)
  qed
  then show ?thesis by (simp add: getNextTrackIndex_def js_rem_nonneg)
qed

theorem nextIndex_linear_witness:
  "(0::int) < 2 \<and> - 1 \<le> (1::int) \<and> getNextTrackIndex 1 2 False [] = Some 0 \<and>
   playlist playing_last \<noteq> [] \<and> currentTrackIndex playing_last = 1 \<and>
   currentTrackIndex (playNext playing_last) = 0"
proof -
  have p: "playlist playing_last \<noteq> []" "currentTrackIndex playing_last = 1"
    "int (length (playlist playing_last)) = 2"
    by (simp_all add: session_defs action_defs playing_last_def)
  have n: "getNextTrackIndex 1 2 False [] = Some 0"
    using nextIndex_linear [of 1 "[]" 2 playing_last] by simp
  have "Some (currentTrackIndex (playNext playing_last)) = getNextTrackIndex 1 2 False []"
    using nextIndex_linear [of 1 "[]" 2 playing_last] p by simp
  with n p show ?thesis by simp
qed

text \<open>
  C6. For a playlist of length at least 1 and a start index in \<open>[0, length)\<close>,
  \<open>getNextTrackIndex\<close> followed by \<open>getPreviousTrackIndex\<close>, both in linear mode,
  returns the start index.
\<close>

theorem next_then_previous_roundtrip:
  assumes "1 \<le> n" and "0 \<le> c" and "c < n"
  shows "\<exists>m. getNextTrackIndex c n False sh = Some m \<and>
             getPreviousTrackIndex m n False sh' = Some c"
proof (cases "c + 1 = n")
  case True
  then have "js_rem (c + 1) n = 0" using assms by (simp add: js_rem_nonneg)
  then show ?thesis using assms True
    by (simp add: getNextTrackIndex_def getPreviousTrackIndex_def)
next
  case False
  then have "c + 1 < n" using assms by simp
  then have "js_rem (c + 1) n = c + 1" using assms by (simp add: js_rem_nonneg)
  then show ?thesis using assms
    by (simp add: getNextTrackIndex_def getPreviousTrackIndex_def)
qed

theorem next_then_previous_roundtrip_witness:
  "(1::int) \<le> 3 \<and> (0::int) \<le> 2 \<and> (2::int) < 3 \<and>
   (\<exists>m. getNextTrackIndex 2 3 False [] = Some m \<and> getPreviousTrackIndex m 3 False [] = Some 2)"
  using next_then_previous_roundtrip [of 3 2 "[]" "[]"] by simp

text \<open>
  C9. Whatever values in \<open>[0, 1)\<close> the calls of \<open>Math.random()\<close> return,
  \<open>shuffleArray\<close> returns a permutation of its input: the same elements with the same
  multiplicities and the same length. Applied to the indices \<open>0, \<dots>, n - 1\<close> the
  result holds every index exactly once.
\<close>

theorem shuffleArray_permutation:
  assumes "\<forall>k. 0 \<le> random k \<and> random k < 1"
  shows "mset (shuffleArray random array) = mset array \<and>
         length (shuffleArray random array) = length array \<and>
         distinct (shuffleArray random [0..<n]) \<and>
         set (shuffleArray random [0..<n]) = {0..<n}"
proof -
  have m: "mset (shuffleArray random xs) = mset xs" for xs :: "'b list"
    unfolding shuffleArray_def
    by (rule shuffle_loop_mset [OF assms]) (cases xs, simp_all)
  have "length (shuffleArray random array) = length array"
    using m [of array] by (metis size_mset)
  moreover have "distinct (shuffleArray random [0..<n])"
    using m [of "[0..<n]"] by (metis distinct_upt mset_eq_imp_distinct_iff)
  moreover have "set (shuffleArray random [0..<n]) = {0..<n}"
    using m [of "[0..<n]"] by (metis mset_eq_setD set_upt)
  ultimately show ?thesis using m [of array] by simp
qed

theorem shuffleArray_permutation_witness:
  "(\<forall>k::nat. (0::real) \<le> 1/2 \<and> (1/2::real) < 1) \<and>
   mset (shuffleArray (\<lambda>k. 1/2) [10, 20, 30 :: nat]) = mset [10, 20, 30] \<and>
   length (shuffleArray (\<lambda>k. 1/2) [10, 20, 30 :: nat]) = length [10, 20, 30 :: nat] \<and>
   distinct (shuffleArray (\<lambda>k. 1/2) [0..<3]) \<and>
   set (shuffleArray (\<lambda>k. 1/2) [0..<3]) = {0..<3}"
  using shuffleArray_permutation [of "\<lambda>k. 1/2" "[10, 20, 30 :: nat]" 3] by simp

section \<open>Transport operations\<close>

text \<open>
  C10. For every index outside \<open>[0, playlist.length)\<close>, negative or past the end,
  \<open>playTrack\<close> returns without doing anything: the whole state (current track, current
  index, playlist, transport, audio element) is the one it was called in.
\<close>

theorem playTrack_out_of_range_noop:
  assumes "trackIndex < 0 \<or> trackIndex \<ge> int (length (playlist s))"
  shows "playTrack trackIndex s = s"
  using assms by (auto simp add: playTrack_def)

theorem playTrack_out_of_range_noop_witness:
  "((2::int) < 0 \<or> 2 \<ge> int (length (playlist playing_first))) \<and>
   playTrack 2 playing_first = playing_first \<and>
   playTrack (- 1) playing_first = playing_first"
proof -
  have "int (length (playlist playing_first)) = 2"
    by (simp add: session_defs action_defs playing_first_def)
  then show ?thesis
    using playTrack_out_of_range_noop [of 2 playing_first]
      playTrack_out_of_range_noop [of "- 1" playing_first]
    by simp
qed

text \<open>
  C8. Once the audio element exists, \<open>changeVolume v\<close> sets the volume to \<open>v\<close> clamped
  to \<open>[0, 1]\<close>, on the element as well. If the clamped volume is positive and the session
  is muted, the mute flag is cleared (on the element too); in every other case the mute
  flag keeps its value.
\<close>

theorem changeVolume_clamps_and_unmutes:
  assumes "audioRef s = Some a"
  shows "0 \<le> volume (changeVolume v s) \<and> volume (changeVolume v s) \<le> 1 \<and>
         volume (changeVolume v s) = max 0 (min 1 v) \<and>
         map_option a_volume (audioRef (changeVolume v s)) = Some (volume (changeVolume v s)) \<and>
         (0 < volume (changeVolume v s) \<and> isMuted s \<longrightarrow>
            isMuted (changeVolume v s) = False \<and>
            map_option a_muted (audioRef (changeVolume v s)) = Some False) \<and>
         (\<not> (0 < volume (changeVolume v s) \<and> isMuted s) \<longrightarrow>
            isMuted (changeVolume v s) = isMuted s \<and>
            map_option a_muted (audioRef (changeVolume v s)) = Some (a_muted a))"
  using assms by (simp add: changeVolume_def Let_def)

theorem changeVolume_clamps_and_unmutes_witness:
  "audioRef (toggleMute (mount initial)) = Some (new_audio\<lparr>a_muted := True\<rparr>) \<and>
   isMuted (toggleMute (mount initial)) \<and>
   volume (changeVolume 5 (toggleMute (mount initial))) = 1 \<and>
   isMuted (changeVolume 5 (toggleMute (mount initial))) = False \<and>
   volume (changeVolume (- 3) (toggleMute (mount initial))) = 0 \<and>
   isMuted (changeVolume (- 3) (toggleMute (mount initial)))"
proof -
  have m: "audioRef (toggleMute (mount initial)) = Some (new_audio\<lparr>a_muted := True\<rparr>)"
    "isMuted (toggleMute (mount initial))"
    by (simp_all add: initial_def mount_def new_audio_def toggleMute_def)
  show ?thesis
    using changeVolume_clamps_and_unmutes [OF m(1), of 5]
      changeVolume_clamps_and_unmutes [OF m(1), of "- 3"] m
    by simp
qed

text \<open>
  C7, counterexample. The specification has \<open>seek\<close> as a no-op when no track is
  loaded; the hook's \<open>seek\<close> has no such guard. After a track was loaded, its metadata reported a duration of 100 and the playlist was
  cleared, no track is loaded and the position is 0, yet \<open>seek 50\<close> moves the position
  to 50.
\<close>

theorem seek_without_track_counterexample:
  "currentTrack cleared = None \<and> playlist cleared = [] \<and> currentTime cleared = 0 \<and>
   currentTime (seek 50 cleared) = 50 \<and> seek 50 cleared \<noteq> cleared"
proof -
  have c: "currentTrack cleared = None \<and> playlist cleared = [] \<and> currentTime cleared = 0 \<and>
     currentTime (seek 50 cleared) = 50"
    by (simp add: session_defs action_defs cleared_def)
  then have "currentTime (seek 50 cleared) \<noteq> currentTime cleared" by simp
  then have "seek 50 cleared \<noteq> cleared" by metis
  with c show ?thesis by simp
qed

text \<open>
  C7, amended. Once the audio element exists, \<open>seek t\<close> sets the position, in the state
  and on the element, to \<open>t\<close> clamped to \<open>[0, duration]\<close> for the stored duration (0
  at the start, afterwards the last one that a metadata event reported), whether or not a
  track is loaded; so \<open>0 \<le> position \<le> duration\<close> holds whenever the stored duration
  is not negative. Nothing else of the transport changes, and the function is total: no
  argument makes it fail.
\<close>

theorem seek_clamps_to_stored_duration:
  assumes "audioRef s = Some a" and "0 \<le> duration s"
  shows "0 \<le> currentTime (seek t s) \<and> currentTime (seek t s) \<le> duration (seek t s) \<and>
         currentTime (seek t s) = max 0 (min t (duration s)) \<and>
         map_option a_currentTime (audioRef (seek t s)) = Some (currentTime (seek t s)) \<and>
         duration (seek t s) = duration s \<and> currentTrack (seek t s) = currentTrack s \<and>
         isPlaying (seek t s) = isPlaying s"
  using assms by (simp add: seek_def Let_def)

theorem seek_clamps_to_stored_duration_witness:
  "map_option a_src (audioRef playing_first) = Some ''blob:A'' \<and>
   (0::real) \<le> duration playing_first \<and> duration playing_first = 100 \<and>
   currentTime (seek 250 playing_first) = 100 \<and> currentTime (seek (- 5) playing_first) = 0 \<and>
   currentTime (seek 30 playing_first) = 30"
proof -
  have f: "audioRef playing_first = Some (the (audioRef playing_first))"
    "map_option a_src (audioRef playing_first) = Some ''blob:A''"
    "duration playing_first = 100"
    by (simp_all add: session_defs action_defs playing_first_def)
  show ?thesis
    using seek_clamps_to_stored_duration [OF f(1), of 250]
      seek_clamps_to_stored_duration [OF f(1), of "- 5"]
      seek_clamps_to_stored_duration [OF f(1), of 30] f(2,3)
    by simp
qed

section \<open>Playlist operations\<close>

text \<open>
  C3, counterexample. The specification's \<open>add\<close> fails with \<open>DuplicateIdError\<close> for a
  track whose id is in the playlist. \<open>addToPlaylist\<close> given such a track does not fail:
  it appends a copy under a new id.
\<close>

theorem addToPlaylist_duplicate_counterexample:
  "t_id (trackA\<lparr>t_id := 21/2\<rparr>) \<in> t_id ` set (playlist two_tracks) \<and>
   add_spec (playlist two_tracks) (trackA\<lparr>t_id := 21/2\<rparr>) = Inl DuplicateIdError \<and>
   map t_id (playlist (addToPlaylist (trackA\<lparr>t_id := 21/2\<rparr>) 30 (1/8) two_tracks))
     = [21/2, 81/4, 241/8]"
  by (simp add: session_defs addToPlaylist_def add_spec_def)

text \<open>
  C3, amended. For every state and every track, \<open>addToPlaylist\<close> never fails and makes
  no test for a duplicate id: the playlist grows by one entry, the entries it had stay in
  place as its prefix, the new last entry is the track with its id replaced by the
  generated one (\<open>Date.now() + Math.random()\<close>), and nothing else of the state changes.
\<close>

theorem addToPlaylist_appends_fresh_copy:
  "length (playlist (addToPlaylist t now rnd s)) = Suc (length (playlist s)) \<and>
   take (length (playlist s)) (playlist (addToPlaylist t now rnd s)) = playlist s \<and>
   last (playlist (addToPlaylist t now rnd s)) = t\<lparr>t_id := now + rnd\<rparr> \<and>
   addToPlaylist t now rnd s = s\<lparr>playlist := playlist (addToPlaylist t now rnd s)\<rparr>"
  by (simp add: addToPlaylist_def)

text \<open>
  C2, counterexample. The first of two tracks is loaded and playing, at index 0. Removing
  it leaves it loaded and the transport playing (on the element too), and the index stays
  0 instead of going down by one.
\<close>

theorem removeFromPlaylist_loaded_counterexample:
  "map_option t_id (currentTrack playing_first) = Some (21/2) \<and>
   isPlaying playing_first \<and> currentTrackIndex playing_first = 0 \<and>
   isPlaying (removeFromPlaylist (21/2) playing_first) \<and>
   currentTrack (removeFromPlaylist (21/2) playing_first) = currentTrack playing_first \<and>
   map_option a_paused (audioRef (removeFromPlaylist (21/2) playing_first)) = Some False \<and>
   currentTrackIndex (removeFromPlaylist (21/2) playing_first) = 0 \<and>
   map t_id (playlist (removeFromPlaylist (21/2) playing_first)) = [81/4]"
  by (simp add: session_defs action_defs playing_first_def)

text \<open>
  C2, amended. For every state and every track id, \<open>removeFromPlaylist\<close> removes the
  entries with that id from the playlist and touches nothing of the transport: the
  current track (also when it is the removed one), the playing flag, the position and the
  audio element stay as they are, and no neighbour is loaded. If the first entry with
  that id is at or before the current index, the current index becomes
  \<open>max 0 (index - 1)\<close>; if no entry at or before the current index has that id, the
  current index is unchanged.
\<close>

theorem removeFromPlaylist_keeps_transport:
  "playlist (removeFromPlaylist trackId s) = filter (\<lambda>t. t_id t \<noteq> trackId) (playlist s) \<and>
   currentTrack (removeFromPlaylist trackId s) = currentTrack s \<and>
   isPlaying (removeFromPlaylist trackId s) = isPlaying s \<and>
   audioRef (removeFromPlaylist trackId s) = audioRef s \<and>
   currentTime (removeFromPlaylist trackId s) = currentTime s \<and>
   (\<forall>r. 0 \<le> r \<longrightarrow> r < int (length (playlist s)) \<longrightarrow> t_id (playlist s ! nat r) = trackId \<longrightarrow>
        (\<forall>i < nat r. t_id (playlist s ! i) \<noteq> trackId) \<longrightarrow> r \<le> currentTrackIndex s \<longrightarrow>
        currentTrackIndex (removeFromPlaylist trackId s) = max 0 (currentTrackIndex s - 1)) \<and>
   ((\<forall>i. 0 \<le> i \<and> i \<le> currentTrackIndex s \<and> i < int (length (playlist s)) \<longrightarrow>
         t_id (playlist s ! nat i) \<noteq> trackId) \<longrightarrow>
        currentTrackIndex (removeFromPlaylist trackId s) = currentTrackIndex s)"
proof -
  let ?P = "\<lambda>t. t_id t = trackId"
  let ?f = "findIndex ?P (playlist s)"
  have a: "currentTrackIndex (removeFromPlaylist trackId s) = max 0 (currentTrackIndex s - 1)"
    if r: "0 \<le> r" "r < int (length (playlist s))" "t_id (playlist s ! nat r) = trackId"
      "\<forall>i < nat r. t_id (playlist s ! i) \<noteq> trackId" "r \<le> currentTrackIndex s" for r
  proof -
    have "playlist s ! nat r \<in> set (playlist s)" using r(1,2) by simp
    then have ne: "?f \<noteq> - 1" using r(3) findIndex_absent [of ?P "playlist s"] by blast
    from findIndex_first [OF ne] have f: "0 \<le> ?f" "?P (playlist s ! nat ?f)"
      "\<forall>i < nat ?f. \<not> ?P (playlist s ! i)" by auto
    have "\<not> nat r < nat ?f" using f(3) r(3) by blast
    then have "?f \<le> r" using f(1) r(1) by linarith
    then show ?thesis using ne r(5) by (simp add: removeFromPlaylist_def Let_def)
  qed
  have b: "currentTrackIndex (removeFromPlaylist trackId s) = currentTrackIndex s"
    if n: "\<forall>i. 0 \<le> i \<and> i \<le> currentTrackIndex s \<and> i < int (length (playlist s)) \<longrightarrow>
         t_id (playlist s ! nat i) \<noteq> trackId"
  proof (cases "?f = - 1")
    case True
    then show ?thesis by (simp add: removeFromPlaylist_def Let_def)
  next
    case False
    from findIndex_first [OF False] have f: "0 \<le> ?f" "?f < int (length (playlist s))"
      "?P (playlist s ! nat ?f)" by auto
    then have "\<not> ?f \<le> currentTrackIndex s" using n by blast
    then show ?thesis by (simp add: removeFromPlaylist_def Let_def)
  qed
  show ?thesis using a b by (simp add: removeFromPlaylist_def Let_def)
qed

theorem removeFromPlaylist_keeps_transport_witness:
  "(0::int) \<le> 0 \<and> (0::int) < int (length (playlist playing_last)) \<and>
   t_id (playlist playing_last ! nat 0) = 21/2 \<and> (0::int) \<le> currentTrackIndex playing_last \<and>
   currentTrackIndex playing_last = 1 \<and>
   currentTrackIndex (removeFromPlaylist (21/2) playing_last) = 0 \<and>
   map_option t_id (currentTrack (removeFromPlaylist (21/2) playing_last)) = Some (81/4) \<and>
   currentTrackIndex playing_first = 0 \<and>
   t_id (playlist playing_first ! nat 0) = 21/2 \<and>
   currentTrackIndex (removeFromPlaylist (81/4) playing_first) = 0"
proof -
  have l: "int (length (playlist playing_last)) = 2" "t_id (playlist playing_last ! 0) = 21/2"
    "currentTrackIndex playing_last = 1"
    "map_option t_id (currentTrack playing_last) = Some (81/4)"
    by (simp_all add: session_defs action_defs playing_last_def)
  have f: "int (length (playlist playing_first)) = 2" "t_id (playlist playing_first ! 0) = 21/2"
    "currentTrackIndex playing_first = 0"
    by (simp_all add: session_defs action_defs playing_first_def)
  note wl = removeFromPlaylist_keeps_transport [of "21/2" playing_last]
  note wf = removeFromPlaylist_keeps_transport [of "81/4" playing_first]
  have "currentTrackIndex (removeFromPlaylist (21/2) playing_last) =
        max 0 (currentTrackIndex playing_last - 1)"
    using wl l by (elim conjE allE [of _ 0]) simp
  moreover have "currentTrack (removeFromPlaylist (21/2) playing_last) = currentTrack playing_last"
    using wl by blast
  moreover have "\<forall>i. 0 \<le> i \<and> i \<le> currentTrackIndex playing_first \<and>
      i < int (length (playlist playing_first)) \<longrightarrow> t_id (playlist playing_first ! nat i) \<noteq> 81/4"
    using f by auto
  then have "currentTrackIndex (removeFromPlaylist (81/4) playing_first) =
      currentTrackIndex playing_first"
    using wf by blast
  ultimately show ?thesis using l f by simp
qed

section \<open>Events of the audio element\<close>

text \<open>
  C1, counterexample. With two tracks, the last one playing, the \<open>ended\<close> handler does
  not wrap: the linear policy gives index 0, but the current index stays 1, the loaded
  track and the element's source stay those of the last track, and the transport is not
  playing. With the first one playing, the handler moves to index 1, and the transport
  is not playing afterwards, the element being paused.
\<close>

theorem handleEnded_counterexample:
  "length (playlist playing_last) = 2 \<and> currentTrackIndex playing_last = 1 \<and>
   isPlaying playing_last \<and>
   getNextTrackIndex (currentTrackIndex playing_last) 2 False [] = Some 0 \<and>
   currentTrackIndex (handleEnded playing_last) = 1 \<and>
   currentTrack (handleEnded playing_last) = currentTrack playing_last \<and>
   map_option a_src (audioRef (handleEnded playing_last)) = Some ''blob:B'' \<and>
   isPlaying (handleEnded playing_last) = False \<and>
   length (playlist playing_first) = 2 \<and> currentTrackIndex playing_first = 0 \<and>
   isPlaying playing_first \<and>
   currentTrackIndex (handleEnded playing_first) = 1 \<and>
   isPlaying (handleEnded playing_first) = False \<and>
   map_option a_paused (audioRef (handleEnded playing_first)) = Some True"
  by (simp add: session_defs action_defs playing_last_def playing_first_def
      getNextTrackIndex_def)

text \<open>
  C1, amended. When the current track ends, the position is reset to 0 and the playlist
  is kept. If the current index is before the last one, the handler computes the next
  index by the linear policy, which is the current index plus one, makes it the current
  index and loads that track (it becomes the current track and the element's source).
  At the last index, as for a playlist of one track or none, the handler does not
  advance: the current index, the current track and the audio element stay as they are.
\<close>

theorem handleEnded_advances_before_last:
  assumes "audioRef s = Some a" and "0 \<le> currentTrackIndex s"
  shows "currentTime (handleEnded s) = 0 \<and> playlist (handleEnded s) = playlist s \<and>
    (currentTrackIndex s < int (length (playlist s)) - 1 \<longrightarrow>
       Some (currentTrackIndex (handleEnded s)) =
         getNextTrackIndex (currentTrackIndex s) (int (length (playlist s))) False [] \<and>
       currentTrackIndex (handleEnded s) = currentTrackIndex s + 1 \<and>
       currentTrack (handleEnded s) = Some (playlist s ! nat (currentTrackIndex s + 1)) \<and>
       map_option a_src (audioRef (handleEnded s)) =
         Some (t_url (playlist s ! nat (currentTrackIndex s + 1)))) \<and>
    (\<not> currentTrackIndex s < int (length (playlist s)) - 1 \<longrightarrow>
       currentTrackIndex (handleEnded s) = currentTrackIndex s \<and>
       currentTrack (handleEnded s) = currentTrack s \<and>
       audioRef (handleEnded s) = audioRef s)"
proof (cases "currentTrackIndex s < int (length (playlist s)) - 1")
  case True
  let ?n = "int (length (playlist s))"
  have r: "js_rem (currentTrackIndex s + 1) ?n = currentTrackIndex s + 1"
    using True assms(2) by (simp add: js_rem_def)
  have ne: "playlist s \<noteq> []" using True assms(2) by auto
  show ?thesis using True assms ne r
    by (simp add: handleEnded_def playNext_def playTrack_def loadTrack_def array_at_def
        audio_load_def audio_pause_def getNextTrackIndex_def Let_def)
next
  case False
  then show ?thesis by (simp add: handleEnded_def Let_def)
qed

theorem handleEnded_advances_before_last_witness:
  "map_option a_src (audioRef playing_first) = Some ''blob:A'' \<and>
   (0::int) \<le> currentTrackIndex playing_first \<and>
   currentTrackIndex playing_first < int (length (playlist playing_first)) - 1 \<and>
   currentTrackIndex (handleEnded playing_first) = 1 \<and>
   map_option a_src (audioRef (handleEnded playing_first)) = Some ''blob:B'' \<and>
   map_option a_src (audioRef playing_last) = Some ''blob:B'' \<and>
   (0::int) \<le> currentTrackIndex playing_last \<and>
   int (length (playlist playing_last)) - 1 \<le> currentTrackIndex playing_last \<and>
   currentTrackIndex (handleEnded playing_last) = 1 \<and>
   audioRef (handleEnded playing_last) = audioRef playing_last"
proof -
  have f: "audioRef playing_first = Some (the (audioRef playing_first))"
    "map_option a_src (audioRef playing_first) = Some ''blob:A''"
    "currentTrackIndex playing_first = 0" "int (length (playlist playing_first)) = 2"
    "t_url (playlist playing_first ! Suc 0) = ''blob:B''"
    by (simp_all add: session_defs action_defs playing_first_def)
  have l: "audioRef playing_last = Some (the (audioRef playing_last))"
    "map_option a_src (audioRef playing_last) = Some ''blob:B''"
    "currentTrackIndex playing_last = 1" "int (length (playlist playing_last)) = 2"
    by (simp_all add: session_defs action_defs playing_last_def)
  have "currentTrackIndex (handleEnded playing_first) = 1 \<and>
        map_option a_src (audioRef (handleEnded playing_first)) = Some ''blob:B''"
    using handleEnded_advances_before_last [OF f(1)] f(3,4,5) by simp
  moreover have "currentTrackIndex (handleEnded playing_last) = 1 \<and>
        audioRef (handleEnded playing_last) = audioRef playing_last"
    using handleEnded_advances_before_last [OF l(1)] l(3,4) by simp
  ultimately show ?thesis using f l by simp
qed

end
